theory Spec2Isabelle
  imports Main "HOL-Library.Sublist"
begin

section \<open>Python primitives used by the programs\<close>

text \<open>
  The three programs (\<^verbatim>\<open>generator2.py\<close>, \<^verbatim>\<open>optimized-generator.py\<close>,
  \<^verbatim>\<open>benchmark.py\<close>) build solver arguments and facts as Python strings. The few
  string operations they use are written out here: \<^verbatim>\<open>str.startswith\<close>, \<^verbatim>\<open>str.join\<close>,
  \<^verbatim>\<open>str.split\<close> with an explicit one-character separator, and \<^verbatim>\<open>str\<close> of an integer.
\<close>

definition startswith :: "string \<Rightarrow> string \<Rightarrow> bool" where
  "startswith s p = (take (length p) s = p)"

fun join :: "string \<Rightarrow> string list \<Rightarrow> string" where
  "join sep [] = []"
| "join sep [x] = x"
| "join sep (x # y # ys) = x @ sep @ join sep (y # ys)"

fun split_acc :: "char \<Rightarrow> string \<Rightarrow> string \<Rightarrow> string list" where
  "split_acc c acc [] = [rev acc]"
| "split_acc c acc (x # xs) =
     (if x = c then rev acc # split_acc c [] xs else split_acc c (x # acc) xs)"

definition split :: "string \<Rightarrow> char \<Rightarrow> string list" where
  "split s c = split_acc c [] s"

definition digit_char :: "nat \<Rightarrow> char" where
  "digit_char n = char_of (48 + n)"

fun str_nat :: "nat \<Rightarrow> string" where
  "str_nat n = (if n < 10 then [digit_char n] else str_nat (n div 10) @ [digit_char (n mod 10)])"

declare str_nat.simps [simp del]

definition str_int :: "int \<Rightarrow> string" where
  "str_int i = (if i < 0 then CHR ''-'' # str_nat (nat (- i)) else str_nat (nat i))"

text \<open>
  \<^verbatim>\<open>rand_freq\<close> is passed as an integer literal (\<^verbatim>\<open>0\<close>, \<^verbatim>\<open>1\<close>) or as a float
  literal (\<^verbatim>\<open>0.5\<close>, the default \<^verbatim>\<open>1.0\<close>). A float is carried by the text \<^verbatim>\<open>str\<close>
  gives for it; the programs do nothing with it but render it.
\<close>

datatype number = PyInt int | PyFloat string

fun str_number :: "number \<Rightarrow> string" where
  "str_number (PyInt i) = str_int i"
| "str_number (PyFloat repr) = repr"

text \<open>The module-level \<^verbatim>\<open>seed\<close> is \<^verbatim>\<open>None\<close> until a generation run draws one.\<close>

fun str_seed :: "int option \<Rightarrow> string" where
  "str_seed None = ''None''"
| "str_seed (Some i) = str_int i"

definition newline :: string where
  "newline = [CHR 0x0A]"

section \<open>The solving engine at its boundary\<close>

text \<open>
  \<^verbatim>\<open>clingo\<close> is an external library. A \<^verbatim>\<open>clingo.Model\<close> is seen by the programs
  through \<^verbatim>\<open>model.symbols(atoms=True)\<close> (each atom rendered with \<^verbatim>\<open>str\<close>) and through
  \<^verbatim>\<open>str(model)\<close>. One use of \<^verbatim>\<open>clingo.Control\<close> is described by the argument list it
  is built with, the program file it loads, the text added as the \<^verbatim>\<open>facts\<close> block and the
  names of the parts it grounds. The engine is a parameter of every function below: it maps
  such a call to the models it reports, in the order in which \<^verbatim>\<open>on_model\<close> is called.
  Search that finds nothing reports no model: the empty list.
\<close>

record clingo_model =
  symbols_atoms :: "string list"
  model_str :: string

record ctl_call =
  ctl_args :: "string list"
  ctl_program :: string
  ctl_facts :: string
  ctl_parts :: "string list"

type_synonym engine = "ctl_call \<Rightarrow> clingo_model list"

text \<open>
  The state the programs act on: the module globals \<^verbatim>\<open>facts\<close> and \<^verbatim>\<open>seed\<close>, the
  text given to \<^verbatim>\<open>print\<close> (one entry per call), and the engine calls made so far, in
  order.
\<close>

record state =
  facts :: "string list"
  seed :: "int option"
  printed :: "string list"
  invocations :: "ctl_call list"

section \<open>generator2.py\<close>

definition model_facts :: "clingo_model \<Rightarrow> string list" where
  "model_facts m = map (\<lambda>atom. atom @ ''.'') (symbols_atoms m)"

definition collect_model :: "state \<Rightarrow> clingo_model \<Rightarrow> state" where
  "collect_model s m = s\<lparr>facts := facts s @ model_facts m\<rparr>"

definition render_model :: "clingo_model \<Rightarrow> string" where
  "render_model m = join newline (map (\<lambda>atom. atom @ ''.'') (split (model_str m) CHR '' ''))"

definition print_model :: "state \<Rightarrow> clingo_model \<Rightarrow> state" where
  "print_model s m = s\<lparr>printed := printed s @ [render_model m]\<rparr>"

text \<open>Lines 17 to 23 of \<^verbatim>\<open>solve_step\<close>: the control object built for one stage.\<close>

definition solve_call ::
  "string \<Rightarrow> string \<Rightarrow> number \<Rightarrow> int \<Rightarrow> string list option \<Rightarrow> state \<Rightarrow> ctl_call" where
  "solve_call program step rand_freq par parameters s =
     \<lparr>ctl_args =
        [''--rand-freq='' @ str_number rand_freq, ''-t '' @ str_int par,
         ''--seed='' @ str_seed (seed s)]
        @ (case parameters of None \<Rightarrow> [] | Some ps \<Rightarrow> ps),
      ctl_program = program,
      ctl_facts = join newline (facts s),
      ctl_parts = [''facts'', step]\<rparr>"

definition solve_step ::
  "engine \<Rightarrow> string \<Rightarrow> string \<Rightarrow> number \<Rightarrow> int \<Rightarrow> bool \<Rightarrow> string list option \<Rightarrow> state \<Rightarrow> state" where
  "solve_step E program step rand_freq par is_last parameters s =
     (let ctl = solve_call program step rand_freq par parameters s;
          s' = s\<lparr>invocations := invocations s @ [ctl]\<rparr>
      in if is_last then foldl print_model s' (E ctl)
         else foldl collect_model s' (E ctl))"

definition generator2_program :: string where
  "generator2_program = ''generator2-programs.lp''"

definition box_parameters :: "int \<Rightarrow> int \<Rightarrow> int \<Rightarrow> string list" where
  "box_parameters height width depth =
     [''-c h='' @ str_int height, ''-c w='' @ str_int width, ''-c d='' @ str_int depth]"

text \<open>
  \<^verbatim>\<open>run_generator\<close>: \<open>r\<close> is the integer \<^verbatim>\<open>secrets.randbelow(2**31)\<close> returns in this
  run. The first four stages are named on their own so that the state in which the
  \<^verbatim>\<open>rotation\<close> stage starts can be spoken about.
\<close>

definition generation_stages :: "engine \<Rightarrow> int \<Rightarrow> int \<Rightarrow> int \<Rightarrow> int \<Rightarrow> state \<Rightarrow> state" where
  "generation_stages E r height width depth s =
     (let s0 = s\<lparr>facts := [], seed := Some r\<rparr>;
          program = generator2_program;
          s1 = solve_step E program ''init'' (PyInt 0) 1 False
                 (Some (box_parameters height width depth)) s0;
          s2 = solve_step E program ''block_size_gen'' (PyInt 1) 1 False None s1;
          s3 = solve_step E program ''block_gen'' (PyInt 1) 11 False None s2;
          s4 = solve_step E program ''pipe_gen'' (PyInt 1) 11 False None s3
      in s4)"

definition run_generator ::
  "engine \<Rightarrow> int \<Rightarrow> int \<Rightarrow> int \<Rightarrow> int \<Rightarrow> bool \<Rightarrow> state \<Rightarrow> state" where
  "run_generator E r height width depth pr s =
     solve_step E generator2_program ''rotation'' (PyInt 1) 11 pr None
       (generation_stages E r height width depth s)"

text \<open>
  Line 35, \<^verbatim>\<open>seed = secrets.randbelow(2**31)\<close>. \<^verbatim>\<open>secrets\<close> is library code, so the
  values it returns are supplied from outside: Python has two standard sources of random
  integers, the module \<^verbatim>\<open>secrets\<close> on the operating system's cryptographic generator and
  the reproducible module \<^verbatim>\<open>random\<close>, and \<open>world m k n\<close> is the value the \<open>k\<close>-th call of
  \<^verbatim>\<open>randbelow(n)\<close> of module \<open>m\<close> returns. A call uses up one value of its module. The
  program only ever calls \<^verbatim>\<open>secrets\<close>. \<^verbatim>\<open>run_generator_world\<close> is \<^verbatim>\<open>run_generator\<close>
  with its draw: \<open>k\<close> calls have been made before, and the number of calls made is returned
  beside the state.
\<close>

datatype rng_module = Secrets | Random

type_synonym rng_world = "rng_module \<Rightarrow> nat \<Rightarrow> int \<Rightarrow> int"

definition secrets_randbelow :: "rng_world \<Rightarrow> nat \<Rightarrow> int \<Rightarrow> int \<times> nat" where
  "secrets_randbelow world k n = (world Secrets k n, Suc k)"

definition run_generator_world ::
  "rng_world \<Rightarrow> nat \<Rightarrow> engine \<Rightarrow> int \<Rightarrow> int \<Rightarrow> int \<Rightarrow> bool \<Rightarrow> state \<Rightarrow> state \<times> nat" where
  "run_generator_world world k E height width depth pr s =
     (let (r, k') = secrets_randbelow world k (2 ^ 31)
      in (run_generator E r height width depth pr s, k'))"

text \<open>
  The list comprehension of \<^verbatim>\<open>run_solver\<close> and \<^verbatim>\<open>run_solver_without_pipes\<close>:
  \<^verbatim>\<open>[item for item in facts if any(item.startswith(f"{f}(") for f in filter)]\<close>.
\<close>

definition fact_filter :: "string list \<Rightarrow> string list \<Rightarrow> string list" where
  "fact_filter flt fs = [item \<leftarrow> fs. list_ex (\<lambda>f. startswith item (f @ ''('')) flt]"

definition solver_filter :: "string list" where
  "solver_filter = [''width'', ''height'', ''depth'', ''block'', ''pipe'', ''pipe_in'', ''pipe_out'']"

definition validation_call :: "string \<Rightarrow> string list \<Rightarrow> ctl_call" where
  "validation_call program filtered =
     \<lparr>ctl_args = [''-t 11''],
      ctl_program = program,
      ctl_facts = join newline filtered,
      ctl_parts = [''facts'', ''base'']\<rparr>"

definition run_solver :: "engine \<Rightarrow> bool \<Rightarrow> state \<Rightarrow> state" where
  "run_solver E pr s =
     (let program = ''solver.lp'';
          filtered = fact_filter solver_filter (facts s);
          ctl = validation_call program filtered;
          s' = s\<lparr>invocations := invocations s @ [ctl]\<rparr>
      in if pr then foldl print_model s' (E ctl) else s')"

section \<open>optimized-generator.py\<close>

text \<open>
  The second generator repeats \<^verbatim>\<open>collect_model\<close> and \<^verbatim>\<open>solve_step\<close> word for word; its
  \<^verbatim>\<open>print_model\<close> joins the pieces of \<^verbatim>\<open>str(model)\<close> with a blank and adds no dot, it
  runs four stages, and it has a second validator with a shorter name list.
\<close>

definition render_model_opt :: "clingo_model \<Rightarrow> string" where
  "render_model_opt m = join '' '' (split (model_str m) CHR '' '')"

definition print_model_opt :: "state \<Rightarrow> clingo_model \<Rightarrow> state" where
  "print_model_opt s m = s\<lparr>printed := printed s @ [render_model_opt m]\<rparr>"

definition solve_step_opt ::
  "engine \<Rightarrow> string \<Rightarrow> string \<Rightarrow> number \<Rightarrow> int \<Rightarrow> bool \<Rightarrow> string list option \<Rightarrow> state \<Rightarrow> state" where
  "solve_step_opt E program step rand_freq par is_last parameters s =
     (let ctl = solve_call program step rand_freq par parameters s;
          s' = s\<lparr>invocations := invocations s @ [ctl]\<rparr>
      in if is_last then foldl print_model_opt s' (E ctl)
         else foldl collect_model s' (E ctl))"

definition PATH :: string where
  "PATH = ''./''"

definition run_generator_opt ::
  "engine \<Rightarrow> int \<Rightarrow> int \<Rightarrow> int \<Rightarrow> int \<Rightarrow> bool \<Rightarrow> state \<Rightarrow> state" where
  "run_generator_opt E r height width depth pr s =
     (let s0 = s\<lparr>facts := [], seed := Some r\<rparr>;
          program = PATH @ ''optimized-generator.lp'';
          s1 = solve_step_opt E program ''block_size_gen'' (PyInt 1) 1 False
                 (Some (box_parameters height width depth)) s0;
          s2 = solve_step_opt E program ''block_gen'' (PyFloat ''0.5'') 11 False None s1;
          s3 = solve_step_opt E program ''pipe_gen'' (PyInt 1) 11 False None s2;
          s4 = solve_step_opt E program ''rotation'' (PyInt 1) 11 pr None s3
      in s4)"

definition run_solver_opt :: "engine \<Rightarrow> bool \<Rightarrow> state \<Rightarrow> state" where
  "run_solver_opt E pr s =
     (let program = PATH @ ''solver.lp'';
          filtered = fact_filter solver_filter (facts s);
          ctl = validation_call program filtered;
          s' = s\<lparr>invocations := invocations s @ [ctl]\<rparr>
      in if pr then foldl print_model_opt s' (E ctl) else s')"

definition without_pipes_filter :: "string list" where
  "without_pipes_filter = [''width'', ''height'', ''depth'', ''block'']"

definition run_solver_without_pipes :: "engine \<Rightarrow> bool \<Rightarrow> state \<Rightarrow> state" where
  "run_solver_without_pipes E pr s =
     (let program = PATH @ ''solver-without-pipes.lp'';
          filtered = fact_filter without_pipes_filter (facts s);
          ctl = validation_call program filtered;
          s' = s\<lparr>invocations := invocations s @ [ctl]\<rparr>
      in if pr then foldl print_model_opt s' (E ctl) else s')"

text \<open>
  The globals as the module leaves them when it is loaded (\<^verbatim>\<open>facts = []\<close>,
  \<^verbatim>\<open>seed = None\<close>), with nothing printed and no engine call made.
\<close>

definition initial_state :: state where
  "initial_state = \<lparr>facts = [], seed = None, printed = [], invocations = []\<rparr>"

section \<open>benchmark.py\<close>

text \<open>
  \<^verbatim>\<open>progressive_triples\<close> is a generator: what its consumer sees is the triples yielded
  so far and, if the \<^verbatim>\<open>else\<close> branch is ever reached, the \<^verbatim>\<open>AssertionError\<close> raised
  after them. \<^verbatim>\<open>steps\<close> is \<^verbatim>\<open>None\<close> or an integer.
\<close>

datatype error = AssertionError string

type_synonym triple = "int \<times> int \<times> int"

definition yield :: "triple \<Rightarrow> triple list \<times> error option \<Rightarrow> triple list \<times> error option" where
  "yield t rest = (t # fst rest, snd rest)"

function progressive_loop ::
  "int \<Rightarrow> int option \<Rightarrow> int \<Rightarrow> int \<Rightarrow> int \<Rightarrow> int \<Rightarrow> triple list \<times> error option" where
  "progressive_loop max_dim steps h w d count =
     (if h \<le> max_dim \<and> w \<le> max_dim \<and> d \<le> max_dim then
        yield (h, w, d)
          (if (case steps of None \<Rightarrow> False | Some n \<Rightarrow> count + 1 \<ge> n) then ([], None)
           else if h = w \<and> w = d then progressive_loop max_dim steps h w (d + 1) (count + 1)
           else if w = d \<and> h < w then progressive_loop max_dim steps (h + 1) w d (count + 1)
           else if h = w \<and> w < d then progressive_loop max_dim steps h (w + 1) d (count + 1)
           else ([], Some (AssertionError ''Broken ordering in progressive_triples'')))
      else ([], None))"
  by pat_completeness auto
termination
  by (relation "measure (\<lambda>(max_dim, steps, h, w, d, count). nat (3 * max_dim + 1 - (h + w + d)))")
     auto

declare progressive_loop.simps [simp del]

definition progressive_triples :: "int \<Rightarrow> int option \<Rightarrow> int \<Rightarrow> triple list \<times> error option" where
  "progressive_triples max_dim steps start_dim =
     progressive_loop max_dim steps start_dim start_dim start_dim 0"

text \<open>
  A CSV file is absent or holds rows of cells. \<^verbatim>\<open>seconds_text\<close> is the text
  \<^verbatim>\<open>f"{seconds:.6f}"\<close> of the measured time.
\<close>

datatype csv_cell = IntCell int | StrCell string

type_synonym csv_file = "csv_cell list list option"

definition csv_header :: "csv_cell list" where
  "csv_header = map StrCell [''height'', ''width'', ''depth'', ''run'', ''seconds'', ''size'']"

definition init_csv :: "csv_file \<Rightarrow> csv_file" where
  "init_csv f = (case f of None \<Rightarrow> Some [csv_header] | Some rows \<Rightarrow> Some rows)"

definition append_csv :: "csv_file \<Rightarrow> int \<Rightarrow> int \<Rightarrow> int \<Rightarrow> int \<Rightarrow> string \<Rightarrow> csv_file" where
  "append_csv f h w d run_idx seconds_text =
     Some ((case f of None \<Rightarrow> [] | Some rows \<Rightarrow> rows)
           @ [[IntCell h, IntCell w, IntCell d, IntCell run_idx, StrCell seconds_text,
               IntCell (h * w * d)]])"

section \<open>Notions of the specification\<close>

text \<open>
  The specification speaks of the functor name of a fact and of the facts an invocation
  returns; the programs have no function for either. Both are written here from the
  specification's words, to be compared with what the programs compute.

  The functor name of a fact is its text up to the argument list or, for a fact without
  arguments, up to the terminating dot. A fact has an argument list when its functor name
  is followed by an opening parenthesis.
\<close>

definition functor_name :: "string \<Rightarrow> string" where
  "functor_name item = takeWhile (\<lambda>c. c \<noteq> CHR ''('' \<and> c \<noteq> CHR ''.'') item"

definition has_args :: "string \<Rightarrow> bool" where
  "has_args item =
     (case dropWhile (\<lambda>c. c \<noteq> CHR ''('' \<and> c \<noteq> CHR ''.'') item of
        [] \<Rightarrow> False | c # rest \<Rightarrow> c = CHR ''('')"

definition functor_filter :: "string list \<Rightarrow> string list \<Rightarrow> string list" where
  "functor_filter flt fs = [item \<leftarrow> fs. functor_name item \<in> set flt]"

text \<open>The facts one invocation returns: the atoms of every model it reports, each with its dot.\<close>

definition returned :: "engine \<Rightarrow> ctl_call \<Rightarrow> string list" where
  "returned E c = concat (map model_facts (E c))"

text \<open>
  The number a decimal numeral denotes, to read back the seed from the argument that
  carries it.
\<close>

definition decimal_value :: "string \<Rightarrow> nat" where
  "decimal_value ds = foldl (\<lambda>acc c. 10 * acc + (of_char c - 48)) 0 ds"

text \<open>
  What the sweep is expected to give from a state \<open>(h, w, d)\<close> of the loop on: no error,
  ordered triples that are no smaller than the state, and sizes that never decrease.
\<close>

definition sweep_ok :: "int \<Rightarrow> int \<Rightarrow> int \<Rightarrow> triple list \<times> error option \<Rightarrow> bool" where
  "sweep_ok h w d res \<longleftrightarrow>
     snd res = None \<and>
     (\<forall>(a, b, c) \<in> set (fst res). h \<le> a \<and> a \<le> b \<and> b \<le> c \<and> h * w * d \<le> a * b * c) \<and>
     sorted (map (\<lambda>(a, b, c). a * b * c) (fst res))"

section \<open>Auxiliary facts\<close>

lemma startswith_prefix: "startswith s p \<longleftrightarrow> prefix p s"
  unfolding startswith_def prefix_def
  by (metis append_eq_conv_conj append_take_drop_id)

lemma startswith_paren_iff:
  assumes "CHR ''('' \<notin> set f" "CHR ''.'' \<notin> set f"
  shows "startswith item (f @ ''('') \<longleftrightarrow> has_args item \<and> functor_name item = f"
proof
  assume "startswith item (f @ ''('')"
  then obtain rest where item: "item = f @ CHR ''('' # rest"
    by (auto simp: startswith_prefix prefix_def)
  have tw: "takeWhile (\<lambda>c. c \<noteq> CHR ''('' \<and> c \<noteq> CHR ''.'') item = f"
    unfolding item using assms by (subst takeWhile_append2) auto
  have dw: "dropWhile (\<lambda>c. c \<noteq> CHR ''('' \<and> c \<noteq> CHR ''.'') item = CHR ''('' # rest"
    unfolding item using assms by (subst dropWhile_append2) auto
  show "has_args item \<and> functor_name item = f"
    by (simp add: has_args_def functor_name_def tw dw)
next
  assume h: "has_args item \<and> functor_name item = f"
  let ?P = "\<lambda>c. c \<noteq> CHR ''('' \<and> c \<noteq> CHR ''.''"
  from h obtain rest where dw: "dropWhile ?P item = CHR ''('' # rest"
    by (auto simp: has_args_def split: list.splits)
  have "item = takeWhile ?P item @ dropWhile ?P item" by simp
  with h dw have "item = f @ CHR ''('' # rest" by (simp add: functor_name_def)
  then show "startswith item (f @ ''('')"
    by (simp add: startswith_prefix prefix_def)
qed

lemma foldl_collect_model:
  "foldl collect_model s ms = s\<lparr>facts := facts s @ concat (map model_facts ms)\<rparr>"
  by (induction ms arbitrary: s) (simp_all add: collect_model_def)

lemma foldl_print_model:
  "foldl print_model s ms = s\<lparr>printed := printed s @ map render_model ms\<rparr>"
  by (induction ms arbitrary: s) (simp_all add: print_model_def)

lemma foldl_print_model_opt:
  "foldl print_model_opt s ms = s\<lparr>printed := printed s @ map render_model_opt ms\<rparr>"
  by (induction ms arbitrary: s) (simp_all add: print_model_opt_def)

lemma solve_step_collect:
  "solve_step E p st rf par False ps s =
     s\<lparr>facts := facts s @ returned E (solve_call p st rf par ps s),
       invocations := invocations s @ [solve_call p st rf par ps s]\<rparr>"
  by (simp add: solve_step_def Let_def foldl_collect_model returned_def)

lemma solve_step_print:
  "solve_step E p st rf par True ps s =
     s\<lparr>printed := printed s @ map render_model (E (solve_call p st rf par ps s)),
       invocations := invocations s @ [solve_call p st rf par ps s]\<rparr>"
  by (simp add: solve_step_def Let_def foldl_print_model)

lemma solve_step_opt_collect:
  "solve_step_opt E p st rf par False ps s =
     s\<lparr>facts := facts s @ returned E (solve_call p st rf par ps s),
       invocations := invocations s @ [solve_call p st rf par ps s]\<rparr>"
  by (simp add: solve_step_opt_def Let_def foldl_collect_model returned_def)

lemma solve_step_opt_print:
  "solve_step_opt E p st rf par True ps s =
     s\<lparr>printed := printed s @ map render_model_opt (E (solve_call p st rf par ps s)),
       invocations := invocations s @ [solve_call p st rf par ps s]\<rparr>"
  by (simp add: solve_step_opt_def Let_def foldl_print_model_opt)

lemma returned_dotted:
  "returned E c = concat (map (\<lambda>m. map (\<lambda>atom. atom @ ''.'') (symbols_atoms m)) (E c))"
proof -
  have "model_facts = (\<lambda>m. map (\<lambda>atom. atom @ ''.'') (symbols_atoms m))"
    by (rule ext) (simp add: model_facts_def)
  then show ?thesis by (simp add: returned_def)
qed

lemma decimal_value_snoc:
  "decimal_value (ds @ [c]) = 10 * decimal_value ds + (of_char c - 48)"
  by (simp add: decimal_value_def)

lemma digit_char_value: "n < 10 \<Longrightarrow> of_char (digit_char n) - 48 = n"
  by (simp add: digit_char_def)

lemma decimal_value_str_nat: "decimal_value (str_nat n) = n"
proof (induction n rule: str_nat.induct)
  case (1 n)
  show ?case
  proof (cases "n < 10")
    case True
    then have "str_nat n = [digit_char n]" by (subst str_nat.simps) simp
    then show ?thesis using True by (simp add: decimal_value_def digit_char_value)
  next
    case False
    then have eq: "str_nat n = str_nat (n div 10) @ [digit_char (n mod 10)]"
      by (subst str_nat.simps) simp
    have "decimal_value (str_nat (n div 10)) = n div 10" using "1.IH" False by simp
    then show ?thesis
      unfolding eq by (simp add: decimal_value_snoc digit_char_value)
  qed
qed

lemma decimal_value_str_int: "0 \<le> r \<Longrightarrow> int (decimal_value (str_int r)) = r"
  by (simp add: str_int_def decimal_value_str_nat)

lemma str_int_7: "str_int 7 = ''7''"
  by code_simp

lemma listed_name_dot_excluded:
  assumes "\<forall>g\<in>set flt. CHR ''('' \<notin> set g" "f \<in> set flt"
  shows "f @ ''.'' \<notin> set (fact_filter flt fs)"
proof
  assume "f @ ''.'' \<in> set (fact_filter flt fs)"
  then obtain g where g: "g \<in> set flt" "startswith (f @ ''.'') (g @ ''('')"
    by (auto simp: fact_filter_def list_ex_iff)
  then obtain rest where "f @ ''.'' = (g @ ''('') @ rest"
    by (auto simp: startswith_prefix prefix_def)
  then have "CHR ''('' \<in> set (f @ ''.'')" by simp
  then have "CHR ''('' \<in> set f" by simp
  with assms show False by blast
qed

lemma size_mono:
  fixes h w d :: int
  shows "0 \<le> h \<Longrightarrow> h \<le> h' \<Longrightarrow> 0 \<le> w \<Longrightarrow> w \<le> w' \<Longrightarrow> 0 \<le> d \<Longrightarrow> d \<le> d' \<Longrightarrow>
    h * w * d \<le> h' * w' * d'"
  by (intro mult_mono) auto

lemma sweep_ok_empty: "sweep_ok h w d ([], None)"
  by (simp add: sweep_ok_def)

lemma sweep_ok_yield:
  assumes "sweep_ok h' w' d' rest" "h \<le> h'" "h \<le> w" "w \<le> d" "h * w * d \<le> h' * w' * d'"
  shows "sweep_ok h w d (yield (h, w, d) rest)"
proof -
  have 1: "snd (yield (h, w, d) rest) = None"
    using assms(1) by (simp add: sweep_ok_def yield_def)
  have all: "\<And>a b c. (a, b, c) \<in> set (fst rest) \<Longrightarrow>
      h \<le> a \<and> a \<le> b \<and> b \<le> c \<and> h * w * d \<le> a * b * c"
  proof -
    fix a b c assume "(a, b, c) \<in> set (fst rest)"
    with assms(1) have "h' \<le> a \<and> a \<le> b \<and> b \<le> c \<and> h' * w' * d' \<le> a * b * c"
      unfolding sweep_ok_def by blast
    with assms(2,5) show "h \<le> a \<and> a \<le> b \<and> b \<le> c \<and> h * w * d \<le> a * b * c"
      by linarith
  qed
  have 2: "\<forall>(a, b, c) \<in> set (fst (yield (h, w, d) rest)).
      h \<le> a \<and> a \<le> b \<and> b \<le> c \<and> h * w * d \<le> a * b * c"
    using all assms(3,4) by (auto simp: yield_def)
  have 3: "sorted (map (\<lambda>(a, b, c). a * b * c) (fst (yield (h, w, d) rest)))"
    using assms(1) all by (auto simp: yield_def sweep_ok_def)
  show ?thesis unfolding sweep_ok_def using 1 2 3 by blast
qed

lemma loop_exit:
  "\<not> (h \<le> max_dim \<and> w \<le> max_dim \<and> d \<le> max_dim) \<Longrightarrow>
   progressive_loop max_dim steps h w d count = ([], None)"
  by (subst progressive_loop.simps) (simp only: if_False)

lemma loop_break:
  "h \<le> max_dim \<and> w \<le> max_dim \<and> d \<le> max_dim \<Longrightarrow>
   (case steps of None \<Rightarrow> False | Some n \<Rightarrow> n \<le> count + 1) \<Longrightarrow>
   progressive_loop max_dim steps h w d count = yield (h, w, d) ([], None)"
  by (subst progressive_loop.simps) simp

lemma loop_bump_d:
  "h \<le> max_dim \<and> w \<le> max_dim \<and> d \<le> max_dim \<Longrightarrow>
   \<not> (case steps of None \<Rightarrow> False | Some n \<Rightarrow> n \<le> count + 1) \<Longrightarrow>
   h = w \<and> w = d \<Longrightarrow>
   progressive_loop max_dim steps h w d count =
     yield (h, w, d) (progressive_loop max_dim steps h w (d + 1) (count + 1))"
  by (subst progressive_loop.simps) simp

lemma loop_bump_h:
  "h \<le> max_dim \<and> w \<le> max_dim \<and> d \<le> max_dim \<Longrightarrow>
   \<not> (case steps of None \<Rightarrow> False | Some n \<Rightarrow> n \<le> count + 1) \<Longrightarrow>
   \<not> (h = w \<and> w = d) \<Longrightarrow> w = d \<and> h < w \<Longrightarrow>
   progressive_loop max_dim steps h w d count =
     yield (h, w, d) (progressive_loop max_dim steps (h + 1) w d (count + 1))"
  by (subst progressive_loop.simps) simp

lemma loop_bump_w:
  "h \<le> max_dim \<and> w \<le> max_dim \<and> d \<le> max_dim \<Longrightarrow>
   \<not> (case steps of None \<Rightarrow> False | Some n \<Rightarrow> n \<le> count + 1) \<Longrightarrow>
   \<not> (h = w \<and> w = d) \<Longrightarrow> \<not> (w = d \<and> h < w) \<Longrightarrow> h = w \<and> w < d \<Longrightarrow>
   progressive_loop max_dim steps h w d count =
     yield (h, w, d) (progressive_loop max_dim steps h (w + 1) d (count + 1))"
  by (subst progressive_loop.simps) simp

lemma progressive_loop_ok:
  "0 \<le> h \<Longrightarrow> h \<le> w \<Longrightarrow> w \<le> d \<Longrightarrow> d \<le> h + 1 \<Longrightarrow>
   sweep_ok h w d (progressive_loop max_dim steps h w d count)"
proof (induction max_dim steps h w d count rule: progressive_loop.induct)
  case (1 max_dim steps h w d count)
  show ?case
  proof (cases "h \<le> max_dim \<and> w \<le> max_dim \<and> d \<le> max_dim")
    case False
    show ?thesis by (simp only: loop_exit [OF False] sweep_ok_empty)
  next
    case inb: True
    show ?thesis
    proof (cases "case steps of None \<Rightarrow> False | Some n \<Rightarrow> n \<le> count + 1")
      case True
      have "sweep_ok h w d (yield (h, w, d) ([], None))"
        using "1.prems" by (intro sweep_ok_yield [OF sweep_ok_empty [of h w d]]) auto
      then show ?thesis by (simp only: loop_break [OF inb True])
    next
      case nostop: False
      consider (a) "h = w \<and> w = d" | (b) "w = d \<and> h < w" | (c) "h = w \<and> w < d"
        using "1.prems" by linarith
      then show ?thesis
      proof cases
        case a
        have ih: "sweep_ok h w (d + 1) (progressive_loop max_dim steps h w (d + 1) (count + 1))"
          using "1.IH"(1) [OF inb nostop a] a "1.prems" by simp
        have le: "h * w * d \<le> h * w * (d + 1)"
          using "1.prems" by (intro size_mono) auto
        have "sweep_ok h w d
            (yield (h, w, d) (progressive_loop max_dim steps h w (d + 1) (count + 1)))"
          using "1.prems" le by (intro sweep_ok_yield [OF ih]) auto
        then show ?thesis by (simp only: loop_bump_d [OF inb nostop a])
      next
        case b
        then have na: "\<not> (h = w \<and> w = d)" by simp
        have ih: "sweep_ok (h + 1) w d (progressive_loop max_dim steps (h + 1) w d (count + 1))"
          using "1.IH"(2) [OF inb nostop na b] b "1.prems" by simp
        have le: "h * w * d \<le> (h + 1) * w * d"
          using "1.prems" by (intro size_mono) auto
        have "sweep_ok h w d
            (yield (h, w, d) (progressive_loop max_dim steps (h + 1) w d (count + 1)))"
          using "1.prems" le by (intro sweep_ok_yield [OF ih]) auto
        then show ?thesis by (simp only: loop_bump_h [OF inb nostop na b])
      next
        case c
        then have na: "\<not> (h = w \<and> w = d)" and nb: "\<not> (w = d \<and> h < w)" by simp_all
        have ih: "sweep_ok h (w + 1) d (progressive_loop max_dim steps h (w + 1) d (count + 1))"
          using "1.IH"(3) [OF inb nostop na nb c] c "1.prems" by simp
        have le: "h * w * d \<le> h * (w + 1) * d"
          using "1.prems" by (intro size_mono) auto
        have "sweep_ok h w d
            (yield (h, w, d) (progressive_loop max_dim steps h (w + 1) d (count + 1)))"
          using "1.prems" le by (intro sweep_ok_yield [OF ih]) auto
        then show ?thesis by (simp only: loop_bump_w [OF inb nostop na nb c])
      qed
    qed
  qed
qed

lemma progressive_triples_3:
  "progressive_triples 3 None 2 = ([(2, 2, 2), (2, 2, 3), (2, 3, 3), (3, 3, 3)], None)"
  by (simp add: progressive_triples_def progressive_loop.simps yield_def)

section \<open>The generation run\<close>

text \<open>
  C3. A generation run first resets \<^verbatim>\<open>facts\<close> to the empty list, whatever it held. After
  the run \<^verbatim>\<open>facts\<close> is the concatenation, in stage order, of what the collecting
  invocations of the run returned: for every model an invocation reports, in the order of
  the reports, the text of each of its atoms followed by a dot. The collecting invocations
  are the four stages before \<^verbatim>\<open>rotation\<close> and, unless the run prints, \<^verbatim>\<open>rotation\<close>
  itself, and each is given the facts of the stages before it. A run in which no stage
  finds a model ends with \<^verbatim>\<open>facts\<close> empty. Two runs are worked out: one where every
  stage reports a model with two atoms, and a printing run whose third stage finds no
  model; both start with a stale fact in the store.
\<close>

theorem run_generator_facts:
  "facts (run_generator E r h w d pr s) =
     (let dotted = (\<lambda>c. concat (map (\<lambda>m. map (\<lambda>atom. atom @ ''.'') (symbols_atoms m)) (E c)));
          s0 = s\<lparr>facts := [], seed := Some r\<rparr>;
          F1 = dotted (solve_call generator2_program ''init'' (PyInt 0) 1
                 (Some (box_parameters h w d)) s0);
          F2 = dotted (solve_call generator2_program ''block_size_gen'' (PyInt 1) 1 None
                 (s0\<lparr>facts := F1\<rparr>));
          F3 = dotted (solve_call generator2_program ''block_gen'' (PyInt 1) 11 None
                 (s0\<lparr>facts := F1 @ F2\<rparr>));
          F4 = dotted (solve_call generator2_program ''pipe_gen'' (PyInt 1) 11 None
                 (s0\<lparr>facts := F1 @ F2 @ F3\<rparr>));
          F5 = dotted (solve_call generator2_program ''rotation'' (PyInt 1) 11 None
                 (s0\<lparr>facts := F1 @ F2 @ F3 @ F4\<rparr>))
      in F1 @ F2 @ F3 @ F4 @ (if pr then [] else F5)) \<and>
   facts (run_generator (\<lambda>c. []) r h w d pr s) = [] \<and>
   facts (run_generator
      (\<lambda>c. [\<lparr>symbols_atoms = [ctl_parts c ! 1 @ ''(1)'', ''seen''], model_str = ''seen''\<rparr>])
      7 2 2 2 False (initial_state\<lparr>facts := [''stale.'']\<rparr>)) =
     [''init(1).'', ''seen.'', ''block_size_gen(1).'', ''seen.'', ''block_gen(1).'', ''seen.'',
      ''pipe_gen(1).'', ''seen.'', ''rotation(1).'', ''seen.''] \<and>
   facts (run_generator
      (\<lambda>c. if ctl_parts c ! 1 = ''block_gen'' then []
           else [\<lparr>symbols_atoms = [ctl_parts c ! 1 @ ''(1)''], model_str = []\<rparr>])
      7 2 2 2 True (initial_state\<lparr>facts := [''stale.'']\<rparr>)) =
     [''init(1).'', ''block_size_gen(1).'', ''pipe_gen(1).'']"
proof -
  have 1: "facts (run_generator E r h w d pr s) =
     (let dotted = (\<lambda>c. concat (map (\<lambda>m. map (\<lambda>atom. atom @ ''.'') (symbols_atoms m)) (E c)));
          s0 = s\<lparr>facts := [], seed := Some r\<rparr>;
          F1 = dotted (solve_call generator2_program ''init'' (PyInt 0) 1
                 (Some (box_parameters h w d)) s0);
          F2 = dotted (solve_call generator2_program ''block_size_gen'' (PyInt 1) 1 None
                 (s0\<lparr>facts := F1\<rparr>));
          F3 = dotted (solve_call generator2_program ''block_gen'' (PyInt 1) 11 None
                 (s0\<lparr>facts := F1 @ F2\<rparr>));
          F4 = dotted (solve_call generator2_program ''pipe_gen'' (PyInt 1) 11 None
                 (s0\<lparr>facts := F1 @ F2 @ F3\<rparr>));
          F5 = dotted (solve_call generator2_program ''rotation'' (PyInt 1) 11 None
                 (s0\<lparr>facts := F1 @ F2 @ F3 @ F4\<rparr>))
      in F1 @ F2 @ F3 @ F4 @ (if pr then [] else F5))"
    by (cases pr)
       (simp_all add: run_generator_def generation_stages_def Let_def solve_step_collect
          solve_step_print solve_call_def returned_dotted)
  have 2: "facts (run_generator (\<lambda>c. []) r h w d pr s) = []"
    by (cases pr)
       (simp_all add: run_generator_def generation_stages_def Let_def solve_step_collect
          solve_step_print returned_def)
  have 3: "facts (run_generator
      (\<lambda>c. [\<lparr>symbols_atoms = [ctl_parts c ! 1 @ ''(1)'', ''seen''], model_str = ''seen''\<rparr>])
      7 2 2 2 False (initial_state\<lparr>facts := [''stale.'']\<rparr>)) =
     [''init(1).'', ''seen.'', ''block_size_gen(1).'', ''seen.'', ''block_gen(1).'', ''seen.'',
      ''pipe_gen(1).'', ''seen.'', ''rotation(1).'', ''seen.'']"
    by (simp add: run_generator_def generation_stages_def Let_def solve_step_collect
        solve_call_def returned_dotted initial_state_def)
  have 4: "facts (run_generator
      (\<lambda>c. if ctl_parts c ! 1 = ''block_gen'' then []
           else [\<lparr>symbols_atoms = [ctl_parts c ! 1 @ ''(1)''], model_str = []\<rparr>])
      7 2 2 2 True (initial_state\<lparr>facts := [''stale.'']\<rparr>)) =
     [''init(1).'', ''block_size_gen(1).'', ''pipe_gen(1).'']"
    by (simp add: run_generator_def generation_stages_def Let_def solve_step_collect
        solve_step_print solve_call_def returned_dotted initial_state_def)
  from 1 2 3 4 show ?thesis by blast
qed

text \<open>
  C1, as the specification states it, fails: \<^verbatim>\<open>run_generator\<close> passes its own
  \<^verbatim>\<open>print\<close> argument as the \<^verbatim>\<open>last\<close> flag of the \<^verbatim>\<open>rotation\<close> stage. With
  \<^verbatim>\<open>print=False\<close>, the default, the stage collects like the others: with an engine
  that finds a model only for \<^verbatim>\<open>rotation\<close>, \<^verbatim>\<open>facts\<close> is empty when the stage starts
  and holds the model's atom when it returns.
\<close>

theorem run_generator_rotation_counterexample:
  "facts (generation_stages
      (\<lambda>c. if ctl_parts c = [''facts'', ''rotation'']
           then [\<lparr>symbols_atoms = [''rotated(1)''], model_str = ''rotated(1)''\<rparr>] else [])
      7 2 2 2 initial_state) = [] \<and>
   facts (run_generator
      (\<lambda>c. if ctl_parts c = [''facts'', ''rotation'']
           then [\<lparr>symbols_atoms = [''rotated(1)''], model_str = ''rotated(1)''\<rparr>] else [])
      7 2 2 2 False initial_state) = [''rotated(1).'']"
  by (simp add: run_generator_def generation_stages_def Let_def solve_step_collect
      solve_call_def returned_def model_facts_def initial_state_def)

text \<open>
  C1, amended. In a run with \<^verbatim>\<open>print=True\<close> the \<^verbatim>\<open>rotation\<close> stage leaves \<^verbatim>\<open>facts\<close>
  as the four stages before it left it, and prints one rendering per model. In a run with
  \<^verbatim>\<open>print=False\<close> the stage appends the facts it returns to \<^verbatim>\<open>facts\<close>.
\<close>

theorem run_generator_rotation:
  "facts (run_generator E r h w d True s) = facts (generation_stages E r h w d s) \<and>
   printed (run_generator E r h w d True s) =
     printed (generation_stages E r h w d s) @
     map render_model (E (solve_call generator2_program ''rotation'' (PyInt 1) 11 None
       (generation_stages E r h w d s))) \<and>
   facts (run_generator E r h w d False s) =
     facts (generation_stages E r h w d s) @
     returned E (solve_call generator2_program ''rotation'' (PyInt 1) 11 None
       (generation_stages E r h w d s))"
  by (simp add: run_generator_def solve_step_print solve_step_collect)

text \<open>
  C2, as the specification states it, fails: \<^verbatim>\<open>solve_step\<close> has no return statement and
  drops the result of \<^verbatim>\<open>ctl.solve\<close>, so all its caller can see is the state. A collecting
  stage whose search finds no model and one whose search finds a model without atoms leave
  the same state; it is shown in a state in which a run has set the seed.
\<close>

theorem solve_step_no_model_counterexample:
  "solve_step (\<lambda>c. []) generator2_program ''init'' (PyInt 0) 1 False None
     (initial_state\<lparr>seed := Some 7\<rparr>) =
   solve_step (\<lambda>c. [\<lparr>symbols_atoms = [], model_str = []\<rparr>])
     generator2_program ''init'' (PyInt 0) 1 False None (initial_state\<lparr>seed := Some 7\<rparr>)"
  by (simp add: solve_step_def Let_def collect_model_def model_facts_def)

text \<open>
  C2, amended. When the search of an invocation finds no model, no callback runs: the
  globals and the output are unchanged, in both modes, and only the engine call has
  happened. For a collecting stage this is the very state a solve reaches whose models have
  no atoms.
\<close>

theorem solve_step_no_model:
  assumes "E (solve_call p st rf par ps s) = []"
    and "\<forall>m\<in>set (E' (solve_call p st rf par ps s)). symbols_atoms m = []"
  shows "solve_step E p st rf par lst ps s =
           s\<lparr>invocations := invocations s @ [solve_call p st rf par ps s]\<rparr> \<and>
         solve_step E' p st rf par False ps s = solve_step E p st rf par False ps s"
proof -
  have "concat (map model_facts (E' (solve_call p st rf par ps s))) = []"
    using assms(2) by (simp add: model_facts_def)
  then show ?thesis
    using assms(1) by (simp add: solve_step_def Let_def foldl_collect_model)
qed

theorem solve_step_no_model_witness:
  "solve_step (\<lambda>c. []) generator2_program ''init'' (PyInt 0) 1 True None
       (initial_state\<lparr>seed := Some 7\<rparr>) =
     initial_state\<lparr>seed := Some 7, invocations :=
       [solve_call generator2_program ''init'' (PyInt 0) 1 None
          (initial_state\<lparr>seed := Some 7\<rparr>)]\<rparr> \<and>
   solve_step (\<lambda>c. [\<lparr>symbols_atoms = [], model_str = []\<rparr>])
       generator2_program ''init'' (PyInt 0) 1 False None (initial_state\<lparr>seed := Some 7\<rparr>) =
     solve_step (\<lambda>c. []) generator2_program ''init'' (PyInt 0) 1 False None
       (initial_state\<lparr>seed := Some 7\<rparr>)"
  using solve_step_no_model [of "\<lambda>c. []" generator2_program "''init''" "PyInt 0" 1 None
      "initial_state\<lparr>seed := Some 7\<rparr>" "\<lambda>c. [\<lparr>symbols_atoms = [], model_str = []\<rparr>]" True]
  by (simp add: initial_state_def)

text \<open>
  C5. A generation run calls the engine once for each of its stages and in their order:
  five calls for \<^verbatim>\<open>generator2.py\<close>, four for \<^verbatim>\<open>optimized-generator.py\<close>, added to the
  calls made before the run. The call of each stage is built from the facts that all the
  stages before it returned, so it cannot begin before they have returned.
\<close>

theorem run_generator_invocations:
  "invocations (run_generator E r h w d pr s) =
     (let s0 = s\<lparr>facts := [], seed := Some r\<rparr>;
          c1 = solve_call generator2_program ''init'' (PyInt 0) 1
                 (Some (box_parameters h w d)) s0;
          c2 = solve_call generator2_program ''block_size_gen'' (PyInt 1) 1 None
                 (s0\<lparr>facts := returned E c1\<rparr>);
          c3 = solve_call generator2_program ''block_gen'' (PyInt 1) 11 None
                 (s0\<lparr>facts := returned E c1 @ returned E c2\<rparr>);
          c4 = solve_call generator2_program ''pipe_gen'' (PyInt 1) 11 None
                 (s0\<lparr>facts := returned E c1 @ returned E c2 @ returned E c3\<rparr>);
          c5 = solve_call generator2_program ''rotation'' (PyInt 1) 11 None
                 (s0\<lparr>facts := returned E c1 @ returned E c2 @ returned E c3 @ returned E c4\<rparr>)
      in invocations s @ [c1, c2, c3, c4, c5]) \<and>
   map ctl_parts (drop (length (invocations s)) (invocations (run_generator E r h w d pr s))) =
     [[''facts'', ''init''], [''facts'', ''block_size_gen''], [''facts'', ''block_gen''],
      [''facts'', ''pipe_gen''], [''facts'', ''rotation'']] \<and>
   invocations (run_generator_opt E r h w d pr s) =
     (let s0 = s\<lparr>facts := [], seed := Some r\<rparr>;
          c1 = solve_call (PATH @ ''optimized-generator.lp'') ''block_size_gen'' (PyInt 1) 1
                 (Some (box_parameters h w d)) s0;
          c2 = solve_call (PATH @ ''optimized-generator.lp'') ''block_gen'' (PyFloat ''0.5'') 11
                 None (s0\<lparr>facts := returned E c1\<rparr>);
          c3 = solve_call (PATH @ ''optimized-generator.lp'') ''pipe_gen'' (PyInt 1) 11 None
                 (s0\<lparr>facts := returned E c1 @ returned E c2\<rparr>);
          c4 = solve_call (PATH @ ''optimized-generator.lp'') ''rotation'' (PyInt 1) 11 None
                 (s0\<lparr>facts := returned E c1 @ returned E c2 @ returned E c3\<rparr>)
      in invocations s @ [c1, c2, c3, c4]) \<and>
   map ctl_parts
     (drop (length (invocations s)) (invocations (run_generator_opt E r h w d pr s))) =
     [[''facts'', ''block_size_gen''], [''facts'', ''block_gen''], [''facts'', ''pipe_gen''],
      [''facts'', ''rotation'']]"
proof -
  have g: "invocations (run_generator E r h w d pr s) =
     (let s0 = s\<lparr>facts := [], seed := Some r\<rparr>;
          c1 = solve_call generator2_program ''init'' (PyInt 0) 1
                 (Some (box_parameters h w d)) s0;
          c2 = solve_call generator2_program ''block_size_gen'' (PyInt 1) 1 None
                 (s0\<lparr>facts := returned E c1\<rparr>);
          c3 = solve_call generator2_program ''block_gen'' (PyInt 1) 11 None
                 (s0\<lparr>facts := returned E c1 @ returned E c2\<rparr>);
          c4 = solve_call generator2_program ''pipe_gen'' (PyInt 1) 11 None
                 (s0\<lparr>facts := returned E c1 @ returned E c2 @ returned E c3\<rparr>);
          c5 = solve_call generator2_program ''rotation'' (PyInt 1) 11 None
                 (s0\<lparr>facts := returned E c1 @ returned E c2 @ returned E c3 @ returned E c4\<rparr>)
      in invocations s @ [c1, c2, c3, c4, c5])"
    by (cases pr)
       (simp_all add: run_generator_def generation_stages_def Let_def solve_step_collect
          solve_step_print solve_call_def returned_def)
  have gp: "map ctl_parts
      (drop (length (invocations s)) (invocations (run_generator E r h w d pr s))) =
     [[''facts'', ''init''], [''facts'', ''block_size_gen''], [''facts'', ''block_gen''],
      [''facts'', ''pipe_gen''], [''facts'', ''rotation'']]"
    unfolding g by (simp add: Let_def solve_call_def)
  have o: "invocations (run_generator_opt E r h w d pr s) =
     (let s0 = s\<lparr>facts := [], seed := Some r\<rparr>;
          c1 = solve_call (PATH @ ''optimized-generator.lp'') ''block_size_gen'' (PyInt 1) 1
                 (Some (box_parameters h w d)) s0;
          c2 = solve_call (PATH @ ''optimized-generator.lp'') ''block_gen'' (PyFloat ''0.5'') 11
                 None (s0\<lparr>facts := returned E c1\<rparr>);
          c3 = solve_call (PATH @ ''optimized-generator.lp'') ''pipe_gen'' (PyInt 1) 11 None
                 (s0\<lparr>facts := returned E c1 @ returned E c2\<rparr>);
          c4 = solve_call (PATH @ ''optimized-generator.lp'') ''rotation'' (PyInt 1) 11 None
                 (s0\<lparr>facts := returned E c1 @ returned E c2 @ returned E c3\<rparr>)
      in invocations s @ [c1, c2, c3, c4])"
    by (cases pr)
       (simp_all add: run_generator_opt_def Let_def solve_step_opt_collect
          solve_step_opt_print solve_call_def returned_def)
  have op: "map ctl_parts
     (drop (length (invocations s)) (invocations (run_generator_opt E r h w d pr s))) =
     [[''facts'', ''block_size_gen''], [''facts'', ''block_gen''], [''facts'', ''pipe_gen''],
      [''facts'', ''rotation'']]"
    unfolding o by (simp add: Let_def solve_call_def)
  from g gp o op show ?thesis by blast
qed

text \<open>
  C6. The seed of a run is the value of one call of \<^verbatim>\<open>secrets.randbelow(2**31)\<close>, the
  run's own: the call count goes up by one, and a run that follows takes the next call's
  value, not the stored seed. Given the contract of \<^verbatim>\<open>randbelow\<close> (for \<open>n > 0\<close> the
  value lies in \<open>[0, n)\<close>), the seed is non-negative and below \<open>2^31\<close>. The run stores it
  as \<^verbatim>\<open>seed\<close>, whatever the seed was before, and the third argument of each of its five
  engine calls is \<^verbatim>\<open>--seed=\<close> followed by the decimal numeral of that same value: read
  back as a number, the argument gives the seed.
\<close>

theorem run_generator_world_seed:
  assumes "\<forall>k n. 0 < n \<longrightarrow> 0 \<le> world Secrets k n \<and> world Secrets k n < n"
  shows "seed (fst (run_generator_world world k E h w d pr s)) = Some (world Secrets k (2 ^ 31)) \<and>
         0 \<le> world Secrets k (2 ^ 31) \<and> world Secrets k (2 ^ 31) < 2 ^ 31 \<and>
         snd (run_generator_world world k E h w d pr s) = Suc k \<and>
         map (\<lambda>c. ctl_args c ! 2)
           (drop (length (invocations s))
              (invocations (fst (run_generator_world world k E h w d pr s)))) =
           replicate 5 (''--seed='' @ str_int (world Secrets k (2 ^ 31))) \<and>
         map (\<lambda>c. int (decimal_value (drop 7 (ctl_args c ! 2))))
           (drop (length (invocations s))
              (invocations (fst (run_generator_world world k E h w d pr s)))) =
           replicate 5 (world Secrets k (2 ^ 31)) \<and>
         seed (fst (run_generator_world world
                 (snd (run_generator_world world k E h w d pr s)) E' h' w' d' pr'
                 (fst (run_generator_world world k E h w d pr s)))) =
           Some (world Secrets (Suc k) (2 ^ 31))"
proof -
  let ?r = "world Secrets k (2 ^ 31)"
  have run: "run_generator_world world j F a b c q t =
      (run_generator F (world Secrets j (2 ^ 31)) a b c q t, Suc j)" for j F a b c q t
    by (simp add: run_generator_world_def secrets_randbelow_def)
  have sd: "seed (run_generator E r h w d pr s) = Some r" for r E h w d pr s
    by (cases pr)
       (simp_all add: run_generator_def generation_stages_def Let_def solve_step_collect
          solve_step_print)
  have rng: "0 \<le> ?r \<and> ?r < 2 ^ 31"
    using assms by simp
  have args: "map (\<lambda>c. ctl_args c ! 2)
           (drop (length (invocations s)) (invocations (run_generator E ?r h w d pr s))) =
         replicate 5 (''--seed='' @ str_int ?r)"
    by (cases pr)
       (simp_all add: run_generator_def generation_stages_def Let_def solve_step_collect
          solve_step_print solve_call_def numeral_eq_Suc)
  have "map (\<lambda>c. int (decimal_value (drop 7 (ctl_args c ! 2))))
           (drop (length (invocations s)) (invocations (run_generator E ?r h w d pr s))) =
        map (\<lambda>a. int (decimal_value (drop 7 a)))
          (map (\<lambda>c. ctl_args c ! 2)
             (drop (length (invocations s)) (invocations (run_generator E ?r h w d pr s))))"
    by (simp add: comp_def)
  also have "\<dots> = replicate 5 ?r"
    unfolding args using rng by (simp add: decimal_value_str_int)
  finally have vals: "map (\<lambda>c. int (decimal_value (drop 7 (ctl_args c ! 2))))
           (drop (length (invocations s)) (invocations (run_generator E ?r h w d pr s))) =
        replicate 5 ?r" .
  show ?thesis
    unfolding run fst_conv snd_conv using sd rng args vals by simp
qed

theorem run_generator_world_seed_witness:
  "seed (fst (run_generator_world (\<lambda>m k n. (7 + int k) mod n) 0 (\<lambda>c. []) 2 2 2 False
      initial_state)) = Some 7 \<and>
   snd (run_generator_world (\<lambda>m k n. (7 + int k) mod n) 0 (\<lambda>c. []) 2 2 2 False
      initial_state) = 1 \<and>
   map (\<lambda>c. ctl_args c ! 2)
     (invocations (fst (run_generator_world (\<lambda>m k n. (7 + int k) mod n) 0 (\<lambda>c. []) 2 2 2 False
        initial_state))) = replicate 5 ''--seed=7'' \<and>
   seed (fst (run_generator_world (\<lambda>m k n. (7 + int k) mod n)
      (snd (run_generator_world (\<lambda>m k n. (7 + int k) mod n) 0 (\<lambda>c. []) 2 2 2 False
         initial_state)) (\<lambda>c. []) 3 3 3 False
      (fst (run_generator_world (\<lambda>m k n. (7 + int k) mod n) 0 (\<lambda>c. []) 2 2 2 False
         initial_state)))) = Some 8"
proof -
  let ?W = "\<lambda>(m::rng_module) (k::nat) (n::int). (7 + int k) mod n"
  let ?run1 = "run_generator_world ?W 0 (\<lambda>c. []) 2 2 2 False initial_state"
  have h: "\<forall>k n. 0 < n \<longrightarrow> 0 \<le> ?W Secrets k n \<and> ?W Secrets k n < n"
    by simp
  note t = run_generator_world_seed [OF h, of 0 "\<lambda>c. []" 2 2 2 False initial_state
      "\<lambda>c. []" 3 3 3 False]
  have w0: "?W Secrets 0 (2 ^ 31) = 7" and w1: "?W Secrets (Suc 0) (2 ^ 31) = 8"
    by simp_all
  from t have a: "seed (fst ?run1) = Some (?W Secrets 0 (2 ^ 31))" by blast
  from t have b: "snd ?run1 = Suc 0" by blast
  from t have c: "map (\<lambda>c. ctl_args c ! 2)
      (drop (length (invocations initial_state)) (invocations (fst ?run1))) =
      replicate 5 (''--seed='' @ str_int (?W Secrets 0 (2 ^ 31)))" by blast
  from t have e: "seed (fst (run_generator_world ?W (snd ?run1) (\<lambda>c. []) 3 3 3 False
      (fst ?run1))) = Some (?W Secrets (Suc 0) (2 ^ 31))" by blast
  have i0: "invocations initial_state = []" by (simp add: initial_state_def)
  show ?thesis
    using a b c e unfolding w0 w1 i0 by (simp add: str_int_7)
qed

section \<open>The fact filter and the validator\<close>

text \<open>
  C7. The validator leaves \<^verbatim>\<open>facts\<close> as it found it, whether it prints the model or
  not: in \<^verbatim>\<open>run_solver\<close> of both generators and in \<^verbatim>\<open>run_solver_without_pipes\<close>.
\<close>

theorem run_solver_frame:
  "facts (run_solver E pr s) = facts s \<and>
   facts (run_solver_opt E pr s) = facts s \<and>
   facts (run_solver_without_pipes E pr s) = facts s"
  by (simp add: run_solver_def run_solver_opt_def run_solver_without_pipes_def Let_def
      foldl_print_model foldl_print_model_opt)

text \<open>
  C8. The fact filter is idempotent: filtering a filtered list again with the same names
  gives the same list.
\<close>

theorem fact_filter_idempotent: "fact_filter flt (fact_filter flt fs) = fact_filter flt fs"
  by (simp add: fact_filter_def)

text \<open>
  C4, as the specification states it, fails: a fact without arguments whose functor name
  is listed is dropped by the filter, since the test looks for the name followed by an
  opening parenthesis.
\<close>

theorem fact_filter_counterexample:
  "fact_filter solver_filter [''block.''] = [] \<and>
   functor_filter solver_filter [''block.''] = [''block.'']"
  by (simp add: fact_filter_def functor_filter_def functor_name_def solver_filter_def
      startswith_def)

text \<open>
  C4, amended. For names that contain neither an opening parenthesis nor a dot, the filter
  returns, in the order of the store, exactly the facts that have an argument list and
  whose functor name is one of the names.
\<close>

theorem fact_filter_functor:
  assumes "\<forall>f\<in>set flt. CHR ''('' \<notin> set f \<and> CHR ''.'' \<notin> set f"
  shows "fact_filter flt fs = [item \<leftarrow> fs. has_args item \<and> functor_name item \<in> set flt]
         \<and> subseq (fact_filter flt fs) fs"
proof -
  have "list_ex (\<lambda>f. startswith item (f @ ''('')) flt
          \<longleftrightarrow> has_args item \<and> functor_name item \<in> set flt" for item
    using assms by (auto simp: list_ex_iff startswith_paren_iff)
  then show ?thesis by (simp add: fact_filter_def)
qed

theorem fact_filter_functor_witness:
  "fact_filter [''block'', ''pipe'']
     [''block(1,1,1).'', ''pipe(1,2).'', ''color(1,red).'', ''block.'']
   = [''block(1,1,1).'', ''pipe(1,2).'']"
proof -
  have h: "\<forall>f\<in>set [''block'', ''pipe'']. CHR ''('' \<notin> set f \<and> CHR ''.'' \<notin> set f"
    by simp
  show ?thesis
    using fact_filter_functor
      [OF h, of "[''block(1,1,1).'', ''pipe(1,2).'', ''color(1,red).'', ''block.'']"]
    by (simp add: has_args_def functor_name_def)
qed

text \<open>
  C10. The membership test of the validation filter is a test on the text: a fact is kept
  exactly when its text begins with one of the names followed by an opening parenthesis,
  and the kept facts are what the validators hand to the engine. So a fact whose whole text
  is a listed name and the terminating dot is dropped, for both name lists.
\<close>

theorem validation_filter_prefix_test:
  "fact_filter flt fs = [item \<leftarrow> fs. \<exists>f\<in>set flt. prefix (f @ ''('') item] \<and>
   (\<forall>f\<in>set solver_filter. f @ ''.'' \<notin> set (fact_filter solver_filter fs)) \<and>
   (\<forall>f\<in>set without_pipes_filter. f @ ''.'' \<notin> set (fact_filter without_pipes_filter fs)) \<and>
   ctl_facts (last (invocations (run_solver E pr s)))
     = join newline (fact_filter solver_filter (facts s)) \<and>
   ctl_facts (last (invocations (run_solver_without_pipes E pr s)))
     = join newline (fact_filter without_pipes_filter (facts s))"
proof -
  have 1: "fact_filter flt fs = [item \<leftarrow> fs. \<exists>f\<in>set flt. prefix (f @ ''('') item]"
    by (simp add: fact_filter_def list_ex_iff startswith_prefix)
  have n2: "\<forall>g\<in>set solver_filter. CHR ''('' \<notin> set g"
    by (simp add: solver_filter_def)
  have 2: "\<forall>f\<in>set solver_filter. f @ ''.'' \<notin> set (fact_filter solver_filter fs)"
    using listed_name_dot_excluded [OF n2] by blast
  have n3: "\<forall>g\<in>set without_pipes_filter. CHR ''('' \<notin> set g"
    by (simp add: without_pipes_filter_def)
  have 3: "\<forall>f\<in>set without_pipes_filter. f @ ''.'' \<notin> set (fact_filter without_pipes_filter fs)"
    using listed_name_dot_excluded [OF n3] by blast
  have 4: "ctl_facts (last (invocations (run_solver E pr s)))
     = join newline (fact_filter solver_filter (facts s))"
    by (simp add: run_solver_def Let_def foldl_print_model validation_call_def)
  have 5: "ctl_facts (last (invocations (run_solver_without_pipes E pr s)))
     = join newline (fact_filter without_pipes_filter (facts s))"
    by (simp add: run_solver_without_pipes_def Let_def foldl_print_model_opt validation_call_def)
  from 1 2 3 4 5 show ?thesis by blast
qed

theorem validation_filter_prefix_test_witness:
  "''block'' \<in> set solver_filter \<and>
   ''block.'' \<notin> set (fact_filter solver_filter [''block.'', ''block(1,1,1).''])"
proof -
  have m: "''block'' \<in> set solver_filter" by (simp add: solver_filter_def)
  have "\<forall>f\<in>set solver_filter.
      f @ ''.'' \<notin> set (fact_filter solver_filter [''block.'', ''block(1,1,1).''])"
    using validation_filter_prefix_test [of solver_filter "[''block.'', ''block(1,1,1).'']"]
    by blast
  with m have "''block'' @ ''.'' \<notin> set (fact_filter solver_filter [''block.'', ''block(1,1,1).''])"
    by blast
  with m show ?thesis by simp
qed

section \<open>The benchmark sweep\<close>

text \<open>
  C9. A sweep that starts at dimension 2 never raises, whatever the bound and the step cap;
  every triple it yields satisfies \<open>2 \<le> h \<le> w \<le> d\<close>; the sizes \<open>h * w * d\<close> of the
  triples never decrease along the sweep; and \<^verbatim>\<open>append_csv\<close> appends one row whose cell
  under the header \<^verbatim>\<open>size\<close> is the product of the row's three dimensions.
\<close>

theorem progressive_triples_sweep:
  "snd (progressive_triples max_dim steps 2) = None \<and>
   (\<forall>(h, w, d) \<in> set (fst (progressive_triples max_dim steps 2)). 2 \<le> h \<and> h \<le> w \<and> w \<le> d) \<and>
   sorted (map (\<lambda>(h, w, d). h * w * d) (fst (progressive_triples max_dim steps 2))) \<and>
   (\<exists>row. append_csv f h' w' d' run_idx seconds_text =
             Some ((case f of None \<Rightarrow> [] | Some rows \<Rightarrow> rows) @ [row]) \<and>
          length row = length csv_header \<and>
          csv_header ! 5 = StrCell ''size'' \<and>
          row ! 5 = IntCell (h' * w' * d') \<and>
          take 3 row = [IntCell h', IntCell w', IntCell d'])"
proof -
  have ok: "sweep_ok 2 2 2 (progressive_triples max_dim steps 2)"
    unfolding progressive_triples_def by (rule progressive_loop_ok) simp_all
  have 1: "snd (progressive_triples max_dim steps 2) = None"
    using ok by (simp add: sweep_ok_def)
  have 2: "\<forall>(h, w, d) \<in> set (fst (progressive_triples max_dim steps 2)).
      2 \<le> h \<and> h \<le> w \<and> w \<le> d"
    using ok unfolding sweep_ok_def by fast
  have 3: "sorted (map (\<lambda>(h, w, d). h * w * d) (fst (progressive_triples max_dim steps 2)))"
    using ok by (simp add: sweep_ok_def)
  have 4: "\<exists>row. append_csv f h' w' d' run_idx seconds_text =
             Some ((case f of None \<Rightarrow> [] | Some rows \<Rightarrow> rows) @ [row]) \<and>
          length row = length csv_header \<and>
          csv_header ! 5 = StrCell ''size'' \<and>
          row ! 5 = IntCell (h' * w' * d') \<and>
          take 3 row = [IntCell h', IntCell w', IntCell d']"
    by (simp add: append_csv_def csv_header_def)
  from 1 2 3 4 show ?thesis by blast
qed

theorem progressive_triples_sweep_witness:
  "fst (progressive_triples 3 None 2) = [(2, 2, 2), (2, 2, 3), (2, 3, 3), (3, 3, 3)] \<and>
   snd (progressive_triples 3 None 2) = None \<and>
   sorted (map (\<lambda>(h, w, d). h * w * d) [(2, 2, 2), (2, 2, 3), (2, 3, 3), (3, 3, 3 :: int)])"
  using progressive_triples_sweep [of 3 None None 2 2 3 1 "''0.100000''"]
  by (simp add: progressive_triples_3)

end
